theory Spec2Isabelle
  imports Complex_Main "HOL-Library.Sublist" "HOL-Library.AList"
begin

section \<open>Strings\<close>

text \<open>
  Python strings are modelled as \<^typ>\<open>string\<close>: a character is a code point below 256
  (Latin-1). The classes \<open>is_upper\<close>, \<open>is_lower\<close> and \<open>is_digit\<close> are the sets
  \<^verbatim>\<open>[A-Z]\<close>, \<^verbatim>\<open>[a-z]\<close> and \<^verbatim>\<open>[0-9]\<close> of the \<^verbatim>\<open>re\<close> module, which
  hold ASCII characters only.
\<close>

definition code :: "char \<Rightarrow> nat" where
  "code c = of_char c"

definition is_upper :: "char \<Rightarrow> bool" where
  "is_upper c = (65 \<le> code c \<and> code c \<le> 90)"

definition is_lower :: "char \<Rightarrow> bool" where
  "is_lower c = (97 \<le> code c \<and> code c \<le> 122)"

definition is_digit :: "char \<Rightarrow> bool" where
  "is_digit c = (48 \<le> code c \<and> code c \<le> 57)"

text \<open>\<^verbatim>\<open>str.isspace\<close>: tab, line feed, vertical tab, form feed, carriage return, the
  four separators FS, GS, RS, US, the space, the next-line character and the no-break
  space.\<close>

definition is_space :: "char \<Rightarrow> bool" where
  "is_space c =
     ((9 \<le> code c \<and> code c \<le> 13) \<or> (28 \<le> code c \<and> code c \<le> 32)
      \<or> code c = 133 \<or> code c = 160)"

text \<open>The characters that \<^verbatim>\<open>str.lower\<close> changes: the letters \<^verbatim>\<open>A\<close> to
  \<^verbatim>\<open>Z\<close> and the capital letters of Latin-1, from 0xC0 to 0xDE without the
  multiplication sign 0xD7. Each goes to the character 32 code points above it.\<close>

definition is_cased_upper :: "char \<Rightarrow> bool" where
  "is_cased_upper c =
     (is_upper c \<or> (192 \<le> code c \<and> code c \<le> 222 \<and> code c \<noteq> 215))"

definition lower_char :: "char \<Rightarrow> char" where
  "lower_char c = (if is_cased_upper c then char_of (code c + 32) else c)"

text \<open>\<^verbatim>\<open>s.lower()\<close>\<close>

definition py_lower :: "string \<Rightarrow> string" where
  "py_lower s = map lower_char s"

text \<open>\<^verbatim>\<open>pat in s\<close>, which is what \<^verbatim>\<open>Series.str.contains(pat)\<close> computes for a
  pattern without regular-expression metacharacters.\<close>

fun py_contains :: "string \<Rightarrow> string \<Rightarrow> bool" where
  "py_contains pat [] = (pat = [])"
| "py_contains pat (c # cs) = (prefix pat (c # cs) \<or> py_contains pat cs)"

text \<open>\<^verbatim>\<open>s.endswith(pat)\<close>\<close>

definition py_endswith :: "string \<Rightarrow> string \<Rightarrow> bool" where
  "py_endswith pat s = (length pat \<le> length s \<and> drop (length s - length pat) s = pat)"

section \<open>Series of strings\<close>

text \<open>
  A \<^verbatim>\<open>pandas.Series\<close> of strings is the list of its values in row order. The
  vectorised operations the rules use are maps over that list; assignment through a
  boolean mask (\<^verbatim>\<open>s.loc[mask] = v\<close>, \<^verbatim>\<open>s[mask] = v\<close>) replaces the values at
  the rows where the mask is true.
\<close>

definition str_lower :: "string list \<Rightarrow> string list" where
  "str_lower s = map py_lower s"

definition str_contains :: "string \<Rightarrow> string list \<Rightarrow> bool list" where
  "str_contains pat s = map (py_contains pat) s"

definition str_endswith :: "string \<Rightarrow> string list \<Rightarrow> bool list" where
  "str_endswith pat s = map (py_endswith pat) s"

definition isin :: "string list \<Rightarrow> string list \<Rightarrow> bool list" where
  "isin vals s = map (\<lambda>x. x \<in> set vals) s"

definition invert :: "bool list \<Rightarrow> bool list" where
  "invert m = map Not m"

definition set_where :: "bool list \<Rightarrow> 'a \<Rightarrow> 'a list \<Rightarrow> 'a list" where
  "set_where msk v s = map2 (\<lambda>m x. if m then v else x) msk s"

text \<open>\<^verbatim>\<open>animal_type[~is_cat_dog]\<close>: the rows selected by a mask.\<close>

definition select_where :: "bool list \<Rightarrow> 'a list \<Rightarrow> 'a list" where
  "select_where msk s = map snd (filter fst (zip msk s))"

section \<open>The rules on one column\<close>

text \<open>
  \<^verbatim>\<open>check_is_dog\<close>. The error-level log record is returned beside the result: the
  list of log records written (none, or one holding the anomalous values).
\<close>

definition check_is_dog :: "string list \<Rightarrow> string list list \<times> bool list" where
  "check_is_dog animal_type =
     (let is_cat_dog = isin [''dog'', ''cat''] (str_lower animal_type);
          logged = (if \<not> list_all id is_cat_dog
                    then [select_where (invert is_cat_dog) animal_type] else [])
      in (logged, map (\<lambda>x. x = ''dog'') (str_lower animal_type)))"

text \<open>\<^verbatim>\<open>check_has_name\<close>\<close>

definition check_has_name :: "string list \<Rightarrow> bool list" where
  "check_has_name name = map (\<lambda>x. x \<noteq> ''unknown'') (str_lower name)"

text \<open>\<^verbatim>\<open>get_sex\<close>: a series of \<^verbatim>\<open>'unknown'\<close> on the index of the argument,
  overwritten first where the value ends with \<^verbatim>\<open>'Female'\<close>, then where it ends
  with \<^verbatim>\<open>'Male'\<close>.\<close>

definition get_sex :: "string list \<Rightarrow> string list" where
  "get_sex sex_upon_outcome =
     (let sex = map (\<lambda>_. ''unknown'') sex_upon_outcome;
          sex = set_where (str_endswith ''Female'' sex_upon_outcome) ''female'' sex;
          sex = set_where (str_endswith ''Male'' sex_upon_outcome) ''male'' sex
      in sex)"

text \<open>\<^verbatim>\<open>get_neutered\<close>: the lower-cased series is overwritten in place, each mask
  being computed from the series as it then stands.\<close>

definition get_neutered :: "string list \<Rightarrow> string list" where
  "get_neutered sex_upon_outcome =
     (let neutered = str_lower sex_upon_outcome;
          neutered = set_where (str_contains ''neutered'' neutered) ''fixed'' neutered;
          neutered = set_where (str_contains ''spayed'' neutered) ''fixed'' neutered;
          neutered = set_where (str_contains ''intact'' neutered) ''intact'' neutered;
          neutered = set_where (invert (isin [''fixed'', ''intact''] neutered)) ''unknown'' neutered
      in neutered)"

text \<open>\<^verbatim>\<open>get_hair_type\<close>: the loop over \<^verbatim>\<open>valid_hair_types\<close> is a left fold over
  the series.\<close>

definition valid_hair_types :: "string list" where
  "valid_hair_types = [''shorthair'', ''medium hair'', ''longhair'']"

definition get_hair_type :: "string list \<Rightarrow> string list" where
  "get_hair_type breed =
     (let hair_type = str_lower breed;
          hair_type = foldl (\<lambda>hair_type hair.
                         set_where (str_contains hair hair_type) hair hair_type)
                       hair_type valid_hair_types;
          hair_type = set_where (invert (isin valid_hair_types hair_type)) ''unknown'' hair_type
      in hair_type)"

section \<open>Column names\<close>

text \<open>
  \<^verbatim>\<open>re.sub('(.)([A-Z][a-z]+)', r'\1_\2', name)\<close>: scanning from the left, a match
  is any character but a line feed, then an upper-case letter, then the longest run of
  at least one lower-case letter; an underscore is put after the first character of the
  match and the scan goes on after the match. A character at which no match starts is
  copied.
\<close>

function re_sub_word :: "string \<Rightarrow> string" where
  "re_sub_word (a # b # c # rest) =
     (if a \<noteq> CHR 0x0A \<and> is_upper b \<and> is_lower c
      then a # CHR ''_'' # b # c # takeWhile is_lower rest @ re_sub_word (dropWhile is_lower rest)
      else a # re_sub_word (b # c # rest))"
| "re_sub_word [a, b] = [a, b]"
| "re_sub_word [a] = [a]"
| "re_sub_word [] = []"
  by pat_completeness auto
termination
  by (relation "measure length") (simp_all add: le_imp_less_Suc length_dropWhile_le less_SucI)

text \<open>
  \<^verbatim>\<open>re.sub('([a-z0-9])([A-Z])', r'\1_\2', s1)\<close>: a lower-case letter or digit followed
  by an upper-case letter gets an underscore between the two.
\<close>

fun re_sub_boundary :: "string \<Rightarrow> string" where
  "re_sub_boundary (a # b # rest) =
     (if (is_lower a \<or> is_digit a) \<and> is_upper b
      then a # CHR ''_'' # b # re_sub_boundary rest
      else a # re_sub_boundary (b # rest))"
| "re_sub_boundary [a] = [a]"
| "re_sub_boundary [] = []"

definition convert_camel_case :: "string \<Rightarrow> string" where
  "convert_camel_case name =
     (let s1 = re_sub_word name in py_lower (re_sub_boundary s1))"

text \<open>
  The rule of the conversion in one pass over the name, for comparison with the two
  substitutions: an underscore goes before an upper-case letter that follows a lower-case
  letter or a digit, and before an upper-case letter that a lower-case letter follows
  (the end of an acronym, or a capitalised word), whatever stands before it but a line
  feed.
\<close>

fun snake_boundaries :: "string \<Rightarrow> string" where
  "snake_boundaries (a # b # rest) =
     (if is_upper b
         \<and> (is_lower a \<or> is_digit a
              \<or> (a \<noteq> CHR 0x0A \<and> (case rest of [] \<Rightarrow> False | c # r \<Rightarrow> is_lower c)))
      then a # CHR ''_'' # snake_boundaries (b # rest)
      else a # snake_boundaries (b # rest))"
| "snake_boundaries [a] = [a]"
| "snake_boundaries [] = []"

text \<open>\<^verbatim>\<open>s.replace(old, new)\<close>: the occurrences of \<^verbatim>\<open>old\<close> are replaced from the
  left, without overlap; an empty \<^verbatim>\<open>old\<close> matches before every character and at
  the end.\<close>

function py_replace :: "string \<Rightarrow> string \<Rightarrow> string \<Rightarrow> string" where
  "py_replace old new s =
     (if old = [] then concat (map (\<lambda>c. new @ [c]) s) @ new
      else if s = [] then []
      else if prefix old s then new @ py_replace old new (drop (length old) s)
      else hd s # py_replace old new (tl s))"
  by pat_completeness auto
termination
  by (relation "measure (\<lambda>(old, new, s). length s)") auto

text \<open>The two renamings of \<^verbatim>\<open>load_data\<close>, on one column name.\<close>

definition rename_column :: "string \<Rightarrow> string" where
  "rename_column x = convert_camel_case (py_replace ''upon'' ''Upon'' x)"

section \<open>Errors\<close>

text \<open>The exceptions the code can raise: a raise is the value \<open>Inl e\<close>.
  \<open>NoSuchObject\<close> stands for reading the store at a reference that was never
  allocated, which no Python program can do.\<close>

datatype py_error = KeyError | IndexError | ValueError | AttributeError | NoSuchObject

text \<open>\<^verbatim>\<open>x[i]\<close> on a list, for \<^verbatim>\<open>i\<close> not negative.\<close>

definition getitem :: "'a list \<Rightarrow> nat \<Rightarrow> py_error + 'a" where
  "getitem x i = (if i < length x then Inr (x ! i) else Inl IndexError)"

text \<open>\<^verbatim>\<open>Series.apply(f)\<close> calls \<^verbatim>\<open>f\<close> on the values in row order; the first
  exception ends the whole call.\<close>

fun series_apply :: "('a \<Rightarrow> py_error + 'b) \<Rightarrow> 'a list \<Rightarrow> py_error + 'b list" where
  "series_apply f [] = Inr []"
| "series_apply f (x # xs) =
     (case f x of
        Inl e \<Rightarrow> Inl e
      | Inr y \<Rightarrow> (case series_apply f xs of Inl e \<Rightarrow> Inl e | Inr ys \<Rightarrow> Inr (y # ys)))"

section \<open>Floating-point numbers\<close>

text \<open>
  A binary64 value is a sign and a magnitude (a rational that binary64 represents), an
  infinity with its sign, or a NaN: \<open>Finite True 0\<close> is the negative zero. A missing
  value of a numeric column is NaN.
\<close>

datatype pyfloat = Finite bool rat | Infinity bool | NaN

definition pow2 :: "int \<Rightarrow> rat" where
  "pow2 e = (if 0 \<le> e then 2 ^ nat e else 1 / 2 ^ nat (- e))"

definition pow10 :: "int \<Rightarrow> rat" where
  "pow10 e = (if 0 \<le> e then 10 ^ nat e else 1 / 10 ^ nat (- e))"

fun bit_length :: "nat \<Rightarrow> nat" where
  "bit_length n = (if n = 0 then 0 else Suc (bit_length (n div 2)))"

text \<open>The integer \<open>e\<close> with \<open>2 ^ e \<le> a < 2 ^ (e + 1)\<close>, for a positive \<open>a\<close>: one less
  than the number of bits of the integer part from 1 on, and below 1 the least \<open>k\<close> with
  \<open>1 / a \<le> 2 ^ k\<close>, negated.\<close>

definition floor_log2 :: "rat \<Rightarrow> int" where
  "floor_log2 a =
     (if 1 \<le> a then int (bit_length (nat \<lfloor>a\<rfloor>)) - 1
      else - int (bit_length (nat (\<lceil>1 / a\<rceil> - 1))))"

definition round_half_even :: "rat \<Rightarrow> int" where
  "round_half_even x =
     (let f = \<lfloor>x\<rfloor>; d = x - of_int f
      in if d < 1 / 2 then f else if 1 / 2 < d then f + 1 else if even f then f else f + 1)"

text \<open>Rounding a magnitude to the nearest binary64 value, ties to even: 53 bits of
  precision, the least exponent of a unit in the last place \<open>-1074\<close>, and an infinity
  from \<open>2 ^ 1024\<close> on.\<close>

definition round_double :: "bool \<Rightarrow> rat \<Rightarrow> pyfloat" where
  "round_double neg a =
     (if a = 0 then Finite neg 0
      else let u = max (floor_log2 a - 52) (- 1074);
               v = of_int (round_half_even (a / pow2 u)) * pow2 u
           in if pow2 1024 \<le> v then Infinity neg else Finite neg v)"

definition float_of_int :: "int \<Rightarrow> pyfloat" where
  "float_of_int k = round_double (k < 0) (of_int \<bar>k\<bar>)"

fun fmul :: "pyfloat \<Rightarrow> pyfloat \<Rightarrow> pyfloat" where
  "fmul NaN y = NaN"
| "fmul x NaN = NaN"
| "fmul (Infinity s) (Infinity t) = Infinity (s \<noteq> t)"
| "fmul (Infinity s) (Finite t q) = (if q = 0 then NaN else Infinity (s \<noteq> t))"
| "fmul (Finite s p) (Infinity t) = (if p = 0 then NaN else Infinity (s \<noteq> t))"
| "fmul (Finite s p) (Finite t q) = round_double (s \<noteq> t) (p * q)"

subsection \<open>\<^verbatim>\<open>float(s)\<close> on a string\<close>

text \<open>
  White space around the number is dropped: the white space of C (tab to carriage
  return, and the space) and, of the characters outside ASCII, the next-line character
  and the no-break space. An underscore may stand only between two
  digits. What remains is a sign, then either a decimal numeral (digits with at most
  one point and at least one digit, then an optional exponent \<^verbatim>\<open>e\<close> with a sign and
  at least one digit) or, in any case of letters, \<^verbatim>\<open>inf\<close>, \<^verbatim>\<open>infinity\<close> or
  \<^verbatim>\<open>nan\<close>. Anything else raises \<^verbatim>\<open>ValueError\<close>. The value is the decimal value
  rounded to binary64.
\<close>

definition is_float_space :: "char \<Rightarrow> bool" where
  "is_float_space c =
     ((9 \<le> code c \<and> code c \<le> 13) \<or> code c = 32 \<or> code c = 133 \<or> code c = 160)"

definition py_strip :: "string \<Rightarrow> string" where
  "py_strip s = rev (dropWhile is_float_space (rev (dropWhile is_float_space s)))"

fun underscores_ok :: "char \<Rightarrow> string \<Rightarrow> bool" where
  "underscores_ok prev [] = (prev \<noteq> CHR ''_'')"
| "underscores_ok prev (p # ps) =
     ((if p = CHR ''_'' then is_digit prev
       else if prev = CHR ''_'' then is_digit p else True)
      \<and> underscores_ok p ps)"

definition digits_val :: "string \<Rightarrow> nat" where
  "digits_val ds = foldl (\<lambda>n c. 10 * n + (code c - 48)) 0 ds"

definition parse_sign :: "string \<Rightarrow> bool \<times> string" where
  "parse_sign s =
     (case s of
        [] \<Rightarrow> (False, [])
      | c # cs \<Rightarrow> if c = CHR ''-'' then (True, cs)
                 else if c = CHR ''+'' then (False, cs) else (False, s))"

definition parse_inf_or_nan :: "string \<Rightarrow> pyfloat option" where
  "parse_inf_or_nan s =
     (let (neg, r) = parse_sign s; l = py_lower r
      in if l = ''inf'' \<or> l = ''infinity'' then Some (Infinity neg)
         else if l = ''nan'' then Some NaN else None)"

definition parse_exponent :: "string \<Rightarrow> int option" where
  "parse_exponent r =
     (case r of
        [] \<Rightarrow> Some 0
      | c # cs \<Rightarrow>
          if c = CHR ''e'' \<or> c = CHR ''E''
          then (let (neg, ds) = parse_sign cs
                in if ds \<noteq> [] \<and> list_all is_digit ds
                   then Some (if neg then - int (digits_val ds) else int (digits_val ds))
                   else None)
          else None)"

definition parse_decimal :: "string \<Rightarrow> (bool \<times> rat) option" where
  "parse_decimal s =
     (let (neg, r) = parse_sign s;
          ip = takeWhile is_digit r;
          r1 = dropWhile is_digit r;
          (fp, r2) = (case r1 of
                        [] \<Rightarrow> ([], r1)
                      | c # t \<Rightarrow> if c = CHR ''.''
                                then (takeWhile is_digit t, dropWhile is_digit t)
                                else ([], r1))
      in if ip = [] \<and> fp = [] then None
         else (case parse_exponent r2 of
                 None \<Rightarrow> None
               | Some e \<Rightarrow> Some (neg, of_nat (digits_val (ip @ fp)) * pow10 (e - int (length fp)))))"

definition py_float :: "string \<Rightarrow> py_error + pyfloat" where
  "py_float s =
     (let t = py_strip s
      in if \<not> underscores_ok (CHR 0x00) t then Inl ValueError
         else let d = filter (\<lambda>c. c \<noteq> CHR ''_'') t
              in (case parse_decimal d of
                    Some (neg, q) \<Rightarrow> Inr (round_double neg q)
                  | None \<Rightarrow> (case parse_inf_or_nan d of
                               Some x \<Rightarrow> Inr x
                             | None \<Rightarrow> Inl ValueError)))"

section \<open>Age in days\<close>

text \<open>\<^verbatim>\<open>s.split()\<close>: the maximal runs of characters that are not white space.\<close>

fun split_from :: "string \<Rightarrow> string \<Rightarrow> string list" where
  "split_from cur [] = (if cur = [] then [] else [rev cur])"
| "split_from cur (c # cs) =
     (if is_space c then (if cur = [] then split_from [] cs else rev cur # split_from [] cs)
      else split_from (c # cur) cs)"

definition py_split :: "string \<Rightarrow> string list" where
  "py_split s = split_from [] s"

text \<open>The two functions applied to the token lists. The value \<^verbatim>\<open>np.nan\<close> of the
  first and \<^verbatim>\<open>None\<close> of the second are \<open>None\<close> here.\<close>

definition time_of :: "string list \<Rightarrow> py_error + string option" where
  "time_of x =
     (case getitem x 0 of
        Inl e \<Rightarrow> Inl e
      | Inr t \<Rightarrow> if t \<noteq> ''Unknown'' then Inr (Some t) else Inr None)"

definition period_of :: "string list \<Rightarrow> py_error + string option" where
  "period_of x =
     (case getitem x 0 of
        Inl e \<Rightarrow> Inl e
      | Inr t \<Rightarrow> if t \<noteq> ''Unknown''
                then (case getitem x 1 of Inl e \<Rightarrow> Inl e | Inr p \<Rightarrow> Inr (Some p))
                else Inr None)"

definition period_mapping :: "(string \<times> int) list" where
  "period_mapping =
     [(''year'', 365), (''years'', 365), (''weeks'', 7), (''week'', 7),
      (''month'', 30), (''months'', 30), (''days'', 1), (''day'', 1)]"

text \<open>\<^verbatim>\<open>time.astype(float)\<close>: \<^verbatim>\<open>np.nan\<close> stays NaN, a string goes through
  \<^verbatim>\<open>float\<close>.\<close>

definition astype_float :: "string option list \<Rightarrow> py_error + pyfloat list" where
  "astype_float time =
     series_apply (\<lambda>v. case v of None \<Rightarrow> Inr NaN | Some s \<Rightarrow> py_float s) time"

text \<open>\<^verbatim>\<open>period.map(period_mapping)\<close>: a value that is no key of the dictionary, and
  \<^verbatim>\<open>None\<close>, become NaN.\<close>

definition map_period :: "string option list \<Rightarrow> pyfloat list" where
  "map_period period =
     map (\<lambda>p. case p of
                 None \<Rightarrow> NaN
               | Some u \<Rightarrow> (case map_of period_mapping u of
                              None \<Rightarrow> NaN
                            | Some k \<Rightarrow> float_of_int k)) period"

definition compute_days_upon_outcome :: "string list \<Rightarrow> py_error + pyfloat list" where
  "compute_days_upon_outcome age_upon_outcome =
     (let split_age = map py_split age_upon_outcome
      in case series_apply time_of split_age of
           Inl e \<Rightarrow> Inl e
         | Inr time \<Rightarrow>
             (case series_apply period_of split_age of
                Inl e \<Rightarrow> Inl e
              | Inr period \<Rightarrow>
                  (case astype_float time of
                     Inl e \<Rightarrow> Inl e
                   | Inr t \<Rightarrow> Inr (map2 fmul t (map_period period)))))"

section \<open>Tables and the store\<close>

text \<open>
  A column of a \<^verbatim>\<open>DataFrame\<close> is a series of strings, of booleans, of floats or of
  time stamps. A table is the list of its named columns in column order, and
  \<^verbatim>\<open>df[name] = s\<close> is \<^const>\<open>AList.update\<close>: a column of that name is replaced where
  it stands, a new name is added at the end.

  Tables are objects: the store holds them, a reference is a position in the store, and
  a new object is put at the end. The store also holds the records written to the log.
\<close>

datatype series = StrS "string list" | BoolS "bool list" | FloatS "pyfloat list" | TimeS "int list"

type_synonym frame = "(string \<times> series) list"

record state =
  heap :: "frame list"
  log :: "string list list"

fun series_len :: "series \<Rightarrow> nat" where
  "series_len (StrS xs) = length xs"
| "series_len (BoolS xs) = length xs"
| "series_len (FloatS xs) = length xs"
| "series_len (TimeS xs) = length xs"

text \<open>\<^verbatim>\<open>df.copy()\<close>: a new table with the same columns.\<close>

definition df_copy :: "nat \<Rightarrow> state \<Rightarrow> state \<times> (py_error + nat)" where
  "df_copy df st =
     (if df < length (heap st)
      then (st\<lparr>heap := heap st @ [heap st ! df]\<rparr>, Inr (length (heap st)))
      else (st, Inl NoSuchObject))"

text \<open>\<^verbatim>\<open>df[name]\<close> as an expression.\<close>

definition get_column :: "nat \<Rightarrow> string \<Rightarrow> state \<Rightarrow> py_error + series" where
  "get_column df name st =
     (if df < length (heap st)
      then (case map_of (heap st ! df) name of None \<Rightarrow> Inl KeyError | Some s \<Rightarrow> Inr s)
      else Inl NoSuchObject)"

text \<open>The \<^verbatim>\<open>.str\<close> accessor, which only a series of strings has.\<close>

definition str_values :: "series \<Rightarrow> py_error + string list" where
  "str_values s = (case s of StrS xs \<Rightarrow> Inr xs | _ \<Rightarrow> Inl AttributeError)"

text \<open>\<^verbatim>\<open>df[name] = s\<close>, in place.\<close>

definition set_column :: "nat \<Rightarrow> string \<Rightarrow> series \<Rightarrow> state \<Rightarrow> state" where
  "set_column df name s st =
     st\<lparr>heap := (heap st)[df := AList.update name s (heap st ! df)]\<rparr>"

text \<open>
  The statement \<^verbatim>\<open>df[target] = rule(df[source])\<close>. A rule gets a series of strings
  through \<^verbatim>\<open>.str\<close>, may write to the log, and returns a series or raises.
\<close>

type_synonym rule = "string list \<Rightarrow> string list list \<times> (py_error + series)"

definition assign :: "nat \<Rightarrow> string \<Rightarrow> rule \<Rightarrow> string \<Rightarrow> state \<Rightarrow> state \<times> (py_error + unit)" where
  "assign df target rule source st =
     (case get_column df source st of
        Inl e \<Rightarrow> (st, Inl e)
      | Inr col \<Rightarrow>
          (case str_values col of
             Inl e \<Rightarrow> (st, Inl e)
           | Inr xs \<Rightarrow>
               (case rule xs of
                  (logged, Inl e) \<Rightarrow> (st\<lparr>log := log st @ logged\<rparr>, Inl e)
                | (logged, Inr s) \<Rightarrow>
                    (set_column df target s (st\<lparr>log := log st @ logged\<rparr>), Inr ()))))"

text \<open>Statements in sequence: the first exception ends the sequence.\<close>

fun run_all :: "(state \<Rightarrow> state \<times> (py_error + unit)) list \<Rightarrow> state \<Rightarrow> state \<times> (py_error + unit)" where
  "run_all [] st = (st, Inr ())"
| "run_all (c # cs) st =
     (case c st of
        (st', Inl e) \<Rightarrow> (st', Inl e)
      | (st', Inr u) \<Rightarrow> run_all cs st')"

definition is_dog_rule :: rule where
  "is_dog_rule animal_type = (case check_is_dog animal_type of (logged, r) \<Rightarrow> (logged, Inr (BoolS r)))"

definition has_name_rule :: rule where
  "has_name_rule name = ([], Inr (BoolS (check_has_name name)))"

definition sex_rule :: rule where
  "sex_rule sex_upon_outcome = ([], Inr (StrS (get_sex sex_upon_outcome)))"

definition neutered_rule :: rule where
  "neutered_rule sex_upon_outcome = ([], Inr (StrS (get_neutered sex_upon_outcome)))"

definition hair_type_rule :: rule where
  "hair_type_rule breed = ([], Inr (StrS (get_hair_type breed)))"

definition days_rule :: rule where
  "days_rule age_upon_outcome =
     ([], case compute_days_upon_outcome age_upon_outcome of
            Inl e \<Rightarrow> Inl e
          | Inr days \<Rightarrow> Inr (FloatS days))"

text \<open>\<^verbatim>\<open>add_features\<close>: the copy, then the six assignments to the copy, which is
  returned.\<close>

definition add_features :: "nat \<Rightarrow> state \<Rightarrow> state \<times> (py_error + nat)" where
  "add_features df0 st0 =
     (case df_copy df0 st0 of
        (st, Inl e) \<Rightarrow> (st, Inl e)
      | (st, Inr df) \<Rightarrow>
          (case run_all
                  [assign df ''is_dog'' is_dog_rule ''animal_type'',
                   assign df ''has_name'' has_name_rule ''name'',
                   assign df ''sex'' sex_rule ''sex_upon_outcome'',
                   assign df ''neutered'' neutered_rule ''sex_upon_outcome'',
                   assign df ''hair_type'' hair_type_rule ''breed'',
                   assign df ''days_upon_outcome'' days_rule ''age_upon_outcome''] st of
             (st', Inl e) \<Rightarrow> (st', Inl e)
           | (st', Inr u) \<Rightarrow> (st', Inr df)))"

definition derived_columns :: "string list" where
  "derived_columns =
     [''is_dog'', ''has_name'', ''sex'', ''neutered'', ''hair_type'', ''days_upon_outcome'']"

text \<open>The table after the six assignments, from the values of the columns read.\<close>

definition with_features ::
  "string list \<Rightarrow> string list \<Rightarrow> string list \<Rightarrow> string list \<Rightarrow> pyfloat list \<Rightarrow> frame \<Rightarrow> frame" where
  "with_features a n s b days t =
     AList.update ''days_upon_outcome'' (FloatS days)
       (AList.update ''hair_type'' (StrS (get_hair_type b))
         (AList.update ''neutered'' (StrS (get_neutered s))
           (AList.update ''sex'' (StrS (get_sex s))
             (AList.update ''has_name'' (BoolS (check_has_name n))
               (AList.update ''is_dog'' (BoolS (snd (check_is_dog a))) t)))))"

text \<open>A table of two rows with the five columns that the deriver reads, for the
  examples.\<close>

definition example_table :: frame where
  "example_table =
     [(''animal_type'', StrS [''Dog'', ''Cat'']),
      (''name'', StrS [''Rex'', ''Unknown'']),
      (''sex_upon_outcome'', StrS [''Neutered Male'', ''Spayed Female'']),
      (''breed'', StrS [''Beagle Mix'', ''Domestic Shorthair Mix'']),
      (''age_upon_outcome'', StrS [''2 years'', ''3 weeks''])]"

text \<open>The age strings on which the computation of the days returns: the first token is
  \<^verbatim>\<open>Unknown\<close>, or there are two tokens at least and \<^verbatim>\<open>float\<close> accepts the
  first.\<close>

definition well_formed_age :: "string \<Rightarrow> bool" where
  "well_formed_age s =
     (case py_split s of
        [] \<Rightarrow> False
      | tok # rest \<Rightarrow>
          tok = ''Unknown''
          \<or> (rest \<noteq> [] \<and> (case py_float tok of Inl e \<Rightarrow> False | Inr m \<Rightarrow> True)))"

section \<open>Properties of the string operations\<close>

lemma py_contains_sublist: "py_contains pat s \<longleftrightarrow> sublist pat s"
  by (induction s) (simp_all add: sublist_Cons_right)

lemma py_endswith_suffix: "py_endswith pat s \<longleftrightarrow> suffix pat s"
proof
  assume "py_endswith pat s"
  then have "drop (length s - length pat) s = pat" by (simp add: py_endswith_def)
  then show "suffix pat s" by (metis suffix_drop)
next
  assume "suffix pat s"
  then obtain zs where "s = zs @ pat" by (auto simp: suffix_def)
  then show "py_endswith pat s" by (simp add: py_endswith_def)
qed

lemma py_contains_refl: "py_contains s s"
  by (simp add: py_contains_sublist)

lemma set_where_map:
  "set_where (map p s) v (map f s) = map (\<lambda>x. if p x then v else f x) s"
  by (induction s) (simp_all add: set_where_def)

section \<open>The rules, row by row\<close>

subsection \<open>\<^verbatim>\<open>is_dog\<close>\<close>

text \<open>
  Claim C9. For every row, \<^verbatim>\<open>is_dog\<close> is true if and only if the case-folded
  \<^verbatim>\<open>animal_type\<close> equals \<^verbatim>\<open>"dog"\<close>; every other value, such as
  \<^verbatim>\<open>"Bird"\<close>, yields false (and is written to the log).
\<close>

theorem check_is_dog_rows:
  "snd (check_is_dog animal_type) = map (\<lambda>a. py_lower a = ''dog'') animal_type
   \<and> check_is_dog [''Dog'', ''Bird'', ''Cat''] = ([[''Bird'']], [True, False, False])"
proof -
  have "snd (check_is_dog animal_type) = map (\<lambda>a. py_lower a = ''dog'') animal_type"
    by (simp add: check_is_dog_def Let_def str_lower_def)
  moreover have "check_is_dog [''Dog'', ''Bird'', ''Cat''] = ([[''Bird'']], [True, False, False])"
    by code_simp
  ultimately show ?thesis by simp
qed

subsection \<open>\<^verbatim>\<open>sex\<close>\<close>

text \<open>A value that ends with \<^verbatim>\<open>Female\<close> does not end with \<^verbatim>\<open>Male\<close>: the
  fourth character from the end is a lower-case \<^verbatim>\<open>m\<close>.\<close>

lemma female_not_male: "py_endswith ''Female'' v \<Longrightarrow> \<not> py_endswith ''Male'' v"
proof
  assume f: "py_endswith ''Female'' v" and m: "py_endswith ''Male'' v"
  from f obtain zs where zs: "v = zs @ ''Female''"
    by (auto simp: py_endswith_suffix suffix_def)
  from m obtain ys where ys: "v = ys @ ''Male''"
    by (auto simp: py_endswith_suffix suffix_def)
  from zs ys have "(zs @ ''Fe'') @ ''male'' = ys @ ''Male''" by simp
  then have "''male'' = ''Male''"
    using append_eq_append_conv [of "''male''" "''Male''" "zs @ ''Fe''" ys] by simp
  then show False by simp
qed

lemma get_sex_rows:
  "get_sex xs = map (\<lambda>v. if py_endswith ''Male'' v then ''male''
                          else if py_endswith ''Female'' v then ''female'' else ''unknown'') xs"
  unfolding get_sex_def Let_def str_endswith_def
  by (simp add: set_where_map)

text \<open>
  Claim C3. Every row gets exactly one of \<^verbatim>\<open>female\<close>, \<^verbatim>\<open>male\<close>,
  \<^verbatim>\<open>unknown\<close>: \<^verbatim>\<open>female\<close> if and only if the value as stored ends with
  \<^verbatim>\<open>Female\<close>, \<^verbatim>\<open>male\<close> if and only if it ends with \<^verbatim>\<open>Male\<close> and not with
  \<^verbatim>\<open>Female\<close>, \<^verbatim>\<open>unknown\<close> otherwise; a value ending in \<^verbatim>\<open>Female\<close> is never
  \<^verbatim>\<open>male\<close>.
\<close>

theorem get_sex_exactly_one:
  assumes "i < length xs"
  shows "length (get_sex xs) = length xs
     \<and> get_sex xs ! i \<in> {''female'', ''male'', ''unknown''}
     \<and> (get_sex xs ! i = ''female'' \<longleftrightarrow> py_endswith ''Female'' (xs ! i))
     \<and> (get_sex xs ! i = ''male'' \<longleftrightarrow>
          py_endswith ''Male'' (xs ! i) \<and> \<not> py_endswith ''Female'' (xs ! i))
     \<and> (get_sex xs ! i = ''unknown'' \<longleftrightarrow>
          \<not> py_endswith ''Female'' (xs ! i) \<and> \<not> py_endswith ''Male'' (xs ! i))
     \<and> (py_endswith ''Female'' (xs ! i) \<longrightarrow> get_sex xs ! i \<noteq> ''male'')"
  using assms female_not_male [of "xs ! i"] by (auto simp: get_sex_rows)

theorem get_sex_exactly_one_witness:
  "get_sex [''Spayed Female'', ''Neutered Male'', ''Unknown''] ! 0 = ''female''
   \<and> py_endswith ''Female'' ([''Spayed Female'', ''Neutered Male'', ''Unknown''] ! 0)
   \<and> get_sex [''Spayed Female'', ''Neutered Male'', ''Unknown''] ! 0 \<noteq> ''male''"
proof -
  have "(0::nat) < length [''Spayed Female'', ''Neutered Male'', ''Unknown'']" by simp
  from get_sex_exactly_one [OF this]
  show ?thesis by (simp add: py_endswith_def)
qed

subsection \<open>\<^verbatim>\<open>neutered\<close>\<close>

lemma get_neutered_rows:
  "get_neutered xs =
     map (\<lambda>s. if py_contains ''neutered'' (py_lower s) \<or> py_contains ''spayed'' (py_lower s)
                  \<or> py_lower s = ''fixed'' then ''fixed''
               else if py_contains ''intact'' (py_lower s) then ''intact'' else ''unknown'') xs"
  unfolding get_neutered_def Let_def str_lower_def str_contains_def isin_def invert_def
  by (simp add: set_where_map [where f = "\<lambda>x. x", simplified] set_where_map comp_def)

text \<open>
  Claim C1, as the code has it. The three outcomes exclude each other. A row is
  \<^verbatim>\<open>fixed\<close> if and only if its case-folded value contains \<^verbatim>\<open>neutered\<close> or
  \<^verbatim>\<open>spayed\<close>, or is the word \<^verbatim>\<open>fixed\<close> itself; \<^verbatim>\<open>intact\<close> if and only if it
  contains \<^verbatim>\<open>intact\<close> and neither of the first two; \<^verbatim>\<open>unknown\<close> if and only if it
  contains none of the three words and is not \<^verbatim>\<open>fixed\<close>.
\<close>

theorem get_neutered_classes:
  assumes "i < length xs"
  shows "length (get_neutered xs) = length xs
     \<and> get_neutered xs ! i \<in> {''fixed'', ''intact'', ''unknown''}
     \<and> (get_neutered xs ! i = ''fixed'' \<longleftrightarrow>
          py_contains ''neutered'' (py_lower (xs ! i)) \<or> py_contains ''spayed'' (py_lower (xs ! i))
          \<or> py_lower (xs ! i) = ''fixed'')
     \<and> (get_neutered xs ! i = ''intact'' \<longleftrightarrow>
          py_contains ''intact'' (py_lower (xs ! i))
          \<and> \<not> py_contains ''neutered'' (py_lower (xs ! i))
          \<and> \<not> py_contains ''spayed'' (py_lower (xs ! i)))
     \<and> (get_neutered xs ! i = ''unknown'' \<longleftrightarrow>
          \<not> py_contains ''neutered'' (py_lower (xs ! i))
          \<and> \<not> py_contains ''spayed'' (py_lower (xs ! i))
          \<and> \<not> py_contains ''intact'' (py_lower (xs ! i))
          \<and> py_lower (xs ! i) \<noteq> ''fixed'')"
proof -
  have "\<not> py_contains ''intact'' ''fixed''" by simp
  with assms show ?thesis by (auto simp: get_neutered_rows)
qed

theorem get_neutered_classes_witness:
  "get_neutered [''Spayed Female'', ''Intact Male'', ''Unknown''] ! 1 = ''intact''
   \<and> py_contains ''intact'' (py_lower ([''Spayed Female'', ''Intact Male'', ''Unknown''] ! 1))"
proof -
  have "(1::nat) < length [''Spayed Female'', ''Intact Male'', ''Unknown'']" by simp
  from get_neutered_classes [OF this]
  have "get_neutered [''Spayed Female'', ''Intact Male'', ''Unknown''] ! 1 = ''intact''
        \<longleftrightarrow> py_contains ''intact'' (py_lower ''Intact Male'')
            \<and> \<not> py_contains ''neutered'' (py_lower ''Intact Male'')
            \<and> \<not> py_contains ''spayed'' (py_lower ''Intact Male'')"
    by simp
  moreover have "py_lower ''Intact Male'' = ''intact male''" by code_simp
  ultimately show ?thesis by simp
qed

text \<open>The value \<^verbatim>\<open>Fixed\<close> contains none of the three words and is classified
  \<^verbatim>\<open>fixed\<close>, not \<^verbatim>\<open>unknown\<close>.\<close>

theorem get_neutered_fixed_passes:
  "\<not> py_contains ''neutered'' (py_lower ''Fixed'')
   \<and> \<not> py_contains ''spayed'' (py_lower ''Fixed'')
   \<and> \<not> py_contains ''intact'' (py_lower ''Fixed'')
   \<and> get_neutered [''Fixed''] = [''fixed'']"
  by code_simp

subsection \<open>\<^verbatim>\<open>hair_type\<close>\<close>

lemma get_hair_type_rows:
  "get_hair_type xs =
     map (\<lambda>b. case find (\<lambda>h. py_contains h (py_lower b)) valid_hair_types of
                 Some h \<Rightarrow> h | None \<Rightarrow> ''unknown'') xs"
  unfolding get_hair_type_def Let_def str_lower_def str_contains_def isin_def invert_def
    valid_hair_types_def
  by (simp add: set_where_map [where f = "\<lambda>x. x", simplified] set_where_map comp_def)

text \<open>
  Claim C4. The hair type of a breed is the first of \<^verbatim>\<open>shorthair\<close>,
  \<^verbatim>\<open>medium hair\<close>, \<^verbatim>\<open>longhair\<close>, in this order, that the case-folded breed
  contains, and \<^verbatim>\<open>unknown\<close> when it contains none; a breed that contains both
  \<^verbatim>\<open>shorthair\<close> and \<^verbatim>\<open>longhair\<close> is \<^verbatim>\<open>shorthair\<close>.
\<close>

theorem get_hair_type_first_listed:
  "get_hair_type breed =
     map (\<lambda>b. case find (\<lambda>h. py_contains h (py_lower b))
                      [''shorthair'', ''medium hair'', ''longhair''] of
                 Some h \<Rightarrow> h | None \<Rightarrow> ''unknown'') breed
   \<and> (py_contains ''shorthair'' (py_lower b) \<and> py_contains ''longhair'' (py_lower b)
        \<longrightarrow> get_hair_type [b] = [''shorthair''])"
  by (simp add: get_hair_type_rows valid_hair_types_def)

theorem get_hair_type_first_listed_witness:
  "py_contains ''shorthair'' (py_lower ''Longhair Shorthair Mix'')
   \<and> py_contains ''longhair'' (py_lower ''Longhair Shorthair Mix'')
   \<and> get_hair_type [''Longhair Shorthair Mix''] = [''shorthair'']"
proof -
  have l: "py_lower ''Longhair Shorthair Mix'' = ''longhair shorthair mix''" by code_simp
  have "py_contains ''shorthair'' (py_lower ''Longhair Shorthair Mix'')
        \<and> py_contains ''longhair'' (py_lower ''Longhair Shorthair Mix'')"
    unfolding l by simp
  with get_hair_type_first_listed [of "[]" "''Longhair Shorthair Mix''"]
  show ?thesis by blast
qed

section \<open>Column names\<close>

lemma upper_not_lower_digit: "is_upper b \<Longrightarrow> \<not> is_lower b \<and> \<not> is_digit b"
  by (simp add: is_upper_def is_lower_def is_digit_def)

lemma lower_not_upper: "is_lower c \<Longrightarrow> \<not> is_upper c"
  by (simp add: is_upper_def is_lower_def)

lemma underscore_class:
  "\<not> is_upper CHR ''_''" "\<not> is_lower CHR ''_''" "\<not> is_digit CHR ''_''"
  by (simp_all add: is_upper_def is_lower_def is_digit_def code_def)

text \<open>The second substitution puts an underscore between two neighbours, whatever
  comes after them.\<close>

lemma re_sub_boundary_step:
  "re_sub_boundary (a # b # rest) =
     a # (if (is_lower a \<or> is_digit a) \<and> is_upper b then [CHR ''_''] else [])
       @ re_sub_boundary (b # rest)"
proof (cases "(is_lower a \<or> is_digit a) \<and> is_upper b")
  case True
  then have "\<not> is_lower b \<and> \<not> is_digit b" by (simp add: upper_not_lower_digit)
  then have "re_sub_boundary (b # rest) = b # re_sub_boundary rest" by (cases rest) simp_all
  with True show ?thesis by simp
next
  case False
  then show ?thesis by auto
qed

lemma re_sub_boundary_run:
  "is_lower c \<Longrightarrow> list_all is_lower ls \<Longrightarrow>
     re_sub_boundary (c # ls @ ys) =
       c # ls @ (case ys of [] \<Rightarrow> [] | y # r \<Rightarrow> if is_upper y then [CHR ''_''] else [])
         @ re_sub_boundary ys"
proof (induction ls arbitrary: c)
  case Nil
  then show ?case by (cases ys) (simp_all add: re_sub_boundary_step del: re_sub_boundary.simps(1))
next
  case (Cons l ls)
  then have "\<not> is_upper l" by (simp add: lower_not_upper)
  with Cons show ?case by (simp add: re_sub_boundary_step del: re_sub_boundary.simps(1))
qed

lemma snake_run:
  "is_lower c \<Longrightarrow> list_all is_lower ls \<Longrightarrow>
     snake_boundaries (c # ls @ ys) =
       c # ls @ (case ys of [] \<Rightarrow> [] | y # r \<Rightarrow> if is_upper y then [CHR ''_''] else [])
         @ snake_boundaries ys"
proof (induction ls arbitrary: c)
  case Nil
  then show ?case by (cases ys) simp_all
next
  case (Cons l ls)
  then have "\<not> is_upper l" by (simp add: lower_not_upper)
  with Cons show ?case by simp
qed

lemma re_sub_word_head: "\<exists>ys. re_sub_word (x # xs) = x # ys"
proof (cases xs)
  case Nil
  then show ?thesis by simp
next
  case (Cons b bs)
  then show ?thesis by (cases bs) auto
qed

text \<open>The two substitutions, one after the other, are the rule in one pass. A match of
  the first ends with its run of lower-case letters, so the only boundary it can hide
  from itself is one behind a lower-case letter, which the second finds.\<close>

lemma two_passes_one_pass: "re_sub_boundary (re_sub_word s) = snake_boundaries s"
proof (induction s rule: re_sub_word.induct)
  case (1 a b c rest)
  show ?case
  proof (cases "a \<noteq> CHR 0x0A \<and> is_upper b \<and> is_lower c")
    case True
    define ls where "ls = takeWhile is_lower rest"
    define t where "t = dropWhile is_lower rest"
    have rest: "rest = ls @ t" by (simp add: ls_def t_def)
    have ls: "list_all is_lower ls" by (simp add: ls_def list_all_iff) (meson set_takeWhileD)
    have ih: "re_sub_boundary (re_sub_word t) = snake_boundaries t"
      using "1.IH"(1) True by (simp add: t_def)
    have up: "\<not> is_lower b \<and> \<not> is_digit b" "\<not> is_upper c"
      using True by (simp_all add: upper_not_lower_digit lower_not_upper)
    have hd: "(case re_sub_word t of [] \<Rightarrow> [] | y # r \<Rightarrow> if is_upper y then [CHR ''_''] else [])
               = (case t of [] \<Rightarrow> [] | y # r \<Rightarrow> if is_upper y then [CHR ''_''] else [])"
    proof (cases t)
      case Nil
      then show ?thesis by simp
    next
      case (Cons y r)
      with re_sub_word_head [of y r] show ?thesis by auto
    qed
    have "re_sub_boundary (re_sub_word (a # b # c # rest))
            = re_sub_boundary (a # CHR ''_'' # b # c # ls @ re_sub_word t)"
      using True by (simp add: ls_def t_def)
    also have "\<dots> = a # CHR ''_'' # b # re_sub_boundary (c # ls @ re_sub_word t)"
      using up by (simp add: re_sub_boundary_step underscore_class del: re_sub_boundary.simps(1))
    also have "\<dots> = a # CHR ''_'' # b # c # ls
                      @ (case t of [] \<Rightarrow> [] | y # r \<Rightarrow> if is_upper y then [CHR ''_''] else [])
                      @ snake_boundaries t"
      using True ls by (simp add: re_sub_boundary_run hd ih)
    also have "\<dots> = a # CHR ''_'' # b # snake_boundaries (c # ls @ t)"
      using True ls by (simp add: snake_run)
    also have "\<dots> = snake_boundaries (a # b # c # rest)"
      using True up by (simp add: rest)
    finally show ?thesis .
  next
    case False
    obtain ys where ys: "re_sub_word (b # c # rest) = b # ys"
      using re_sub_word_head by blast
    have "re_sub_boundary (re_sub_word (a # b # c # rest))
            = re_sub_boundary (a # re_sub_word (b # c # rest))"
      using False by auto
    also have "\<dots> = a # (if (is_lower a \<or> is_digit a) \<and> is_upper b then [CHR ''_''] else [])
                        @ re_sub_boundary (re_sub_word (b # c # rest))"
      unfolding ys by (rule re_sub_boundary_step)
    also have "\<dots> = a # (if (is_lower a \<or> is_digit a) \<and> is_upper b then [CHR ''_''] else [])
                        @ snake_boundaries (b # c # rest)"
      using "1.IH"(2) False by simp
    also have "\<dots> = snake_boundaries (a # b # c # rest)"
      using False by auto
    finally show ?thesis .
  qed
next
  case (2 a b)
  then show ?case by simp
next
  case (3 a)
  then show ?case by simp
next
  case 4
  then show ?case by simp
qed

text \<open>Lower-casing: a character that \<^verbatim>\<open>str.lower\<close> returns is not one that it
  changes.\<close>

lemma code_char_of: "n < 256 \<Longrightarrow> code (char_of n) = n"
  by (simp add: code_def)

lemma lower_char_not_cased: "\<not> is_cased_upper (lower_char c)"
proof (cases "is_cased_upper c")
  case True
  then have "code c + 32 < 256" by (auto simp: is_cased_upper_def is_upper_def)
  then have "code (char_of (code c + 32)) = code c + 32" by (rule code_char_of)
  with True show ?thesis
    by (auto simp: lower_char_def is_cased_upper_def is_upper_def)
next
  case False
  then show ?thesis by (simp add: lower_char_def)
qed

lemma lower_char_fixed: "lower_char c = c \<longleftrightarrow> \<not> is_cased_upper c"
proof (cases "is_cased_upper c")
  case True
  then have "code c + 32 < 256" by (auto simp: is_cased_upper_def is_upper_def)
  then have "code (char_of (code c + 32)) = code c + 32" by (rule code_char_of)
  then have "char_of (code c + 32) \<noteq> c" by auto
  with True show ?thesis by (simp add: lower_char_def)
next
  case False
  then show ?thesis by (simp add: lower_char_def)
qed

lemma py_lower_fixed: "py_lower s = s \<longleftrightarrow> (\<forall>c\<in>set s. \<not> is_cased_upper c)"
  by (induction s) (auto simp: py_lower_def lower_char_fixed)

lemma py_lower_idem: "py_lower (py_lower s) = py_lower s"
  unfolding py_lower_fixed by (auto simp: py_lower_def lower_char_not_cased)

lemma no_upper_snake: "\<forall>c\<in>set s. \<not> is_upper c \<Longrightarrow> snake_boundaries s = s"
  by (induction s rule: snake_boundaries.induct) simp_all

lemma convert_one_pass: "convert_camel_case s = py_lower (snake_boundaries s)"
  by (simp add: convert_camel_case_def two_passes_one_pass)

lemma convert_lower: "py_lower s = s \<Longrightarrow> convert_camel_case s = s"
proof -
  assume l: "py_lower s = s"
  then have "\<forall>c\<in>set s. \<not> is_upper c" by (auto simp: py_lower_fixed is_cased_upper_def)
  then show ?thesis by (simp add: convert_one_pass no_upper_snake l)
qed

lemma convert_idem: "convert_camel_case (convert_camel_case s) = convert_camel_case s"
  by (rule convert_lower) (simp add: convert_one_pass py_lower_idem)

lemma camel_examples:
  "convert_camel_case ''DateTime'' = ''date_time''"
  "convert_camel_case ''AnimalID'' = ''animal_id''"
  "py_replace ''upon'' ''Upon'' ''SexuponOutcome'' = ''SexUponOutcome''"
  "convert_camel_case ''SexUponOutcome'' = ''sex_upon_outcome''"
  "convert_camel_case ''IDNumber'' = ''id_number''"
  "convert_camel_case ''HTTPResponseCode'' = ''http_response_code''"
  by code_simp+

text \<open>
  Claim C6. The conversion is the rule \<open>snake_boundaries\<close> followed by lower-casing: an
  underscore is put at every boundary of a lower-case letter or digit and an upper-case
  letter, and before the last upper-case letter of an acronym that a lower-case letter
  follows. It returns a name that is already in lower case unchanged, and so it is
  idempotent. \<^verbatim>\<open>DateTime\<close> becomes \<^verbatim>\<open>date_time\<close>, \<^verbatim>\<open>AnimalID\<close> becomes
  \<^verbatim>\<open>animal_id\<close>, and \<^verbatim>\<open>SexuponOutcome\<close>, which the replacement of
  \<^verbatim>\<open>upon\<close> turns into \<^verbatim>\<open>SexUponOutcome\<close>, becomes \<^verbatim>\<open>sex_upon_outcome\<close>;
  \<^verbatim>\<open>IDNumber\<close> becomes \<^verbatim>\<open>id_number\<close>.
\<close>

theorem convert_camel_case_splits:
  "convert_camel_case name = py_lower (snake_boundaries name)
   \<and> (py_lower name = name \<longrightarrow> convert_camel_case name = name)
   \<and> convert_camel_case (convert_camel_case name) = convert_camel_case name
   \<and> convert_camel_case ''DateTime'' = ''date_time''
   \<and> convert_camel_case ''AnimalID'' = ''animal_id''
   \<and> py_replace ''upon'' ''Upon'' ''SexuponOutcome'' = ''SexUponOutcome''
   \<and> convert_camel_case ''SexUponOutcome'' = ''sex_upon_outcome''
   \<and> rename_column ''SexuponOutcome'' = ''sex_upon_outcome''
   \<and> convert_camel_case ''IDNumber'' = ''id_number''
   \<and> convert_camel_case ''HTTPResponseCode'' = ''http_response_code''"
  using convert_one_pass [of name] convert_lower [of name] convert_idem [of name]
  by (simp add: camel_examples rename_column_def)

theorem convert_camel_case_splits_witness:
  "py_lower ''sex_upon_outcome'' = ''sex_upon_outcome''
   \<and> convert_camel_case ''sex_upon_outcome'' = ''sex_upon_outcome''"
proof -
  have l: "py_lower ''sex_upon_outcome'' = ''sex_upon_outcome''" by code_simp
  from convert_camel_case_splits [of "''sex_upon_outcome''"] l
  show ?thesis by blast
qed

section \<open>Floating-point numbers: integers below \<open>2 ^ 53\<close> are exact\<close>

lemma bit_length_le: "n < 2 ^ k \<Longrightarrow> bit_length n \<le> k"
proof (induction k arbitrary: n)
  case 0
  then show ?case by simp
next
  case (Suc k)
  show ?case
  proof (cases "n = 0")
    case True
    then show ?thesis by simp
  next
    case False
    from Suc.prems have "n div 2 < 2 ^ k" by simp
    then have "bit_length (n div 2) \<le> k" by (rule Suc.IH)
    with False show ?thesis by (subst bit_length.simps) simp
  qed
qed

lemma round_half_even_int: "round_half_even (of_int m) = m"
  by (simp add: round_half_even_def)

lemma round_double_int:
  assumes "0 \<le> n" "n < 2 ^ 53"
  shows "round_double neg (of_int n) = Finite neg (of_int n)"
proof (cases "n = 0")
  case True
  then show ?thesis by (simp add: round_double_def)
next
  case False
  with assms have pos: "1 \<le> n" by simp
  define a :: rat where "a = of_int n"
  have a1: "1 \<le> a" using pos by (simp add: a_def)
  have "nat n < 2 ^ 53" using assms by (simp add: nat_less_iff)
  then have "bit_length (nat n) \<le> 53" by (rule bit_length_le)
  then have e: "floor_log2 a \<le> 52" using a1 by (simp add: floor_log2_def a_def)
  define u where "u = max (floor_log2 a - 52) (- 1074)"
  have u0: "u \<le> 0" using e by (simp add: u_def)
  define k where "k = nat (- u)"
  have p: "pow2 u = 1 / 2 ^ k"
    using u0 by (cases "u = 0") (simp_all add: pow2_def k_def)
  have "a / pow2 u = of_int (n * 2 ^ k)" by (simp add: p a_def)
  then have r: "round_half_even (a / pow2 u) = n * 2 ^ k" by (simp only: round_half_even_int)
  have v: "of_int (round_half_even (a / pow2 u)) * pow2 u = a"
    unfolding r by (simp add: p a_def)
  have "a < 2 ^ 53"
    using assms unfolding a_def by (metis of_int_less_iff of_int_numeral of_int_power)
  then have big: "\<not> pow2 1024 \<le> a" by (simp add: pow2_def)
  have "a \<noteq> 0" using a1 by simp
  then show ?thesis
    unfolding a_def [symmetric] round_double_def Let_def u_def [symmetric] v
    using big by simp
qed

lemma round_double_numeral:
  "(numeral k :: int) < 2 ^ 53 \<Longrightarrow> round_double neg (numeral k) = Finite neg (numeral k)"
  using round_double_int [of "numeral k" neg] by simp

lemma round_double_one: "round_double neg 1 = Finite neg 1"
  using round_double_int [of 1 neg] by simp

lemma fmul_NaN_right: "fmul x NaN = NaN"
  by (cases x) simp_all

section \<open>Age in days, row by row\<close>

lemma series_apply_Inr:
  "series_apply f xs = Inr ys \<longleftrightarrow> list_all2 (\<lambda>x y. f x = Inr y) xs ys"
proof
  show "series_apply f xs = Inr ys \<Longrightarrow> list_all2 (\<lambda>x y. f x = Inr y) xs ys"
    by (induction xs arbitrary: ys) (auto split: sum.splits)
  show "list_all2 (\<lambda>x y. f x = Inr y) xs ys \<Longrightarrow> series_apply f xs = Inr ys"
    by (induction rule: list_all2_induct) simp_all
qed

text \<open>The computation on a series of one row.\<close>

lemma compute_days_single:
  "compute_days_upon_outcome [s] =
     (case py_split s of
        [] \<Rightarrow> Inl IndexError
      | tok # rest \<Rightarrow>
          if tok = ''Unknown'' then Inr [NaN]
          else (case rest of
                  [] \<Rightarrow> Inl IndexError
                | u # others \<Rightarrow>
                    (case py_float tok of
                       Inl e \<Rightarrow> Inl e
                     | Inr m \<Rightarrow> Inr [fmul m (case map_of period_mapping u of
                                               None \<Rightarrow> NaN
                                             | Some k \<Rightarrow> float_of_int k)])))"
  by (auto simp add: compute_days_upon_outcome_def time_of_def period_of_def getitem_def
      astype_float_def map_period_def split: list.splits sum.splits)

lemma compute_days_Cons:
  "compute_days_upon_outcome (x # xs) = Inr zs \<longleftrightarrow>
     (\<exists>y ys. zs = y # ys \<and> compute_days_upon_outcome [x] = Inr [y]
        \<and> compute_days_upon_outcome xs = Inr ys)"
  by (auto simp add: compute_days_upon_outcome_def astype_float_def map_period_def
      split: sum.splits)

text \<open>The computation returns on a series if and only if it returns on each row alone,
  and then with the same values: the rows do not influence each other.\<close>

lemma compute_days_rowwise:
  "compute_days_upon_outcome xs = Inr ys \<longleftrightarrow>
     list_all2 (\<lambda>s y. compute_days_upon_outcome [s] = Inr [y]) xs ys"
proof (induction xs arbitrary: ys)
  case Nil
  then show ?case
    by (auto simp: compute_days_upon_outcome_def astype_float_def map_period_def)
next
  case (Cons x xs)
  show ?case
    unfolding compute_days_Cons [of x xs ys] Cons.IH
    by (cases ys) auto
qed

lemma single_returns_iff:
  "(\<exists>y. compute_days_upon_outcome [s] = Inr [y]) \<longleftrightarrow> well_formed_age s"
  by (auto simp add: compute_days_single well_formed_age_def split: list.splits sum.splits)

lemma ex_list_all2:
  "(\<exists>ys. list_all2 R xs ys) \<longleftrightarrow> list_all (\<lambda>x. \<exists>y. R x y) xs"
  by (induction xs) (auto simp: list_all2_Cons1)

lemma returns_iff:
  "(\<exists>ys. compute_days_upon_outcome xs = Inr ys) \<longleftrightarrow> list_all well_formed_age xs"
proof -
  have "(\<exists>ys. compute_days_upon_outcome xs = Inr ys)
        \<longleftrightarrow> (\<exists>ys. list_all2 (\<lambda>s y. compute_days_upon_outcome [s] = Inr [y]) xs ys)"
    using compute_days_rowwise [of xs] by blast
  also have "\<dots> \<longleftrightarrow> list_all (\<lambda>s. \<exists>y. compute_days_upon_outcome [s] = Inr [y]) xs"
    by (rule ex_list_all2)
  also have "\<dots> \<longleftrightarrow> list_all well_formed_age xs"
    by (simp only: single_returns_iff)
  finally show ?thesis .
qed

lemma row_of_series:
  assumes "compute_days_upon_outcome xs = Inr ys" "i < length xs"
  shows "length ys = length xs \<and> compute_days_upon_outcome [xs ! i] = Inr [ys ! i]"
proof -
  from assms(1) have "list_all2 (\<lambda>s y. compute_days_upon_outcome [s] = Inr [y]) xs ys"
    using compute_days_rowwise [of xs ys] by blast
  with assms(2) show ?thesis by (simp add: list_all2_conv_all_nth)
qed

lemma length_of_series:
  assumes "compute_days_upon_outcome xs = Inr ys"
  shows "length ys = length xs"
proof -
  from assms have "list_all2 (\<lambda>s y. compute_days_upon_outcome [s] = Inr [y]) xs ys"
    using compute_days_rowwise [of xs ys] by blast
  then show ?thesis by (simp add: list_all2_lengthD)
qed

lemma unknown_unit_single:
  "py_split s = tok # u # rest \<Longrightarrow> map_of period_mapping u = None \<Longrightarrow>
     compute_days_upon_outcome [s] = Inr [y] \<Longrightarrow> y = NaN"
  by (auto simp: compute_days_single fmul_NaN_right split: if_splits sum.splits)

text \<open>Evaluation on given strings.\<close>

lemmas eval_age =
  time_of_def period_of_def getitem_def astype_float_def map_period_def
  py_split_def is_space_def code_def py_float_def py_strip_def parse_decimal_def parse_sign_def
  parse_exponent_def digits_val_def pow10_def is_digit_def parse_inf_or_nan_def py_lower_def
  lower_char_def is_cased_upper_def is_upper_def is_float_space_def period_mapping_def
  float_of_int_def
  round_double_numeral round_double_one

lemma days_rows:
  "compute_days_upon_outcome [''2 years''] = Inr [Finite False 730]"
  "compute_days_upon_outcome [''3 weeks''] = Inr [Finite False 21]"
  "compute_days_upon_outcome [''1 day''] = Inr [Finite False 1]"
  "compute_days_upon_outcome [''5 fortnights''] = Inr [NaN]"
  "compute_days_upon_outcome [''Unknown''] = Inr [NaN]"
  by (simp_all add: compute_days_upon_outcome_def eval_age)

lemma days_examples:
  "compute_days_upon_outcome [''2 years'', ''3 weeks'', ''1 day'', ''5 fortnights'', ''Unknown'']
     = Inr [Finite False 730, Finite False 21, Finite False 1, NaN, NaN]"
  by (rule compute_days_rowwise [THEN iffD2]) (simp add: days_rows)

lemma period_table:
  "map_of period_mapping u =
   map_of [(''year'', 365), (''years'', 365), (''month'', 30), (''months'', 30),
           (''week'', 7), (''weeks'', 7), (''day'', 1), (''days'', 1)] u"
  by (simp add: period_mapping_def)

text \<open>
  Claim C2, as the code has it. The computation of \<^verbatim>\<open>days_upon_outcome\<close> returns if
  and only if every row is well formed: its first token is \<^verbatim>\<open>Unknown\<close>, or it has
  two tokens at least and \<^verbatim>\<open>float\<close> accepts the first. When it returns, every row
  has a value, and the value of a row whose unit token is no key of the table is missing.
  On any other series (an empty string, a number alone, a first token that is no number)
  it raises and no row gets a value.
\<close>

theorem days_returns_iff_well_formed:
  "((\<exists>ys. compute_days_upon_outcome xs = Inr ys) \<longleftrightarrow> list_all well_formed_age xs)
   \<and> (\<forall>ys. compute_days_upon_outcome xs = Inr ys \<longrightarrow>
         length ys = length xs
         \<and> (\<forall>i<length xs. \<forall>tok u rest.
               py_split (xs ! i) = tok # u # rest \<and> map_of period_mapping u = None
               \<longrightarrow> ys ! i = NaN))"
proof -
  have "ys ! i = NaN"
    if "compute_days_upon_outcome xs = Inr ys" "i < length xs"
       "py_split (xs ! i) = tok # u # rest" "map_of period_mapping u = None"
    for ys i tok u rest
    using row_of_series [OF that(1,2)] unknown_unit_single [OF that(3,4)] by blast
  with returns_iff [of xs] length_of_series [of xs] show ?thesis by blast
qed

theorem days_returns_iff_well_formed_witness:
  "list_all well_formed_age [''5 fortnights'', ''2 years'']
   \<and> (\<exists>ys. compute_days_upon_outcome [''5 fortnights'', ''2 years''] = Inr ys
         \<and> length ys = 2 \<and> ys ! 0 = NaN)"
proof -
  have wf: "list_all well_formed_age [''5 fortnights'', ''2 years'']"
    by (simp add: well_formed_age_def eval_age)
  have sp: "py_split ([''5 fortnights'', ''2 years''] ! 0) = ''5'' # ''fortnights'' # []"
    by (simp add: eval_age)
  have un: "map_of period_mapping ''fortnights'' = None"
    by (simp add: period_mapping_def)
  from days_returns_iff_well_formed [of "[''5 fortnights'', ''2 years'']"] wf
  obtain ys where ys: "compute_days_upon_outcome [''5 fortnights'', ''2 years''] = Inr ys"
    by blast
  from days_returns_iff_well_formed [of "[''5 fortnights'', ''2 years'']"] ys sp un
  have "length ys = 2 \<and> ys ! 0 = NaN"
    by (metis length_Cons list.size(3) numeral_2_eq_2 zero_less_Suc)
  with wf ys show ?thesis by blast
qed

text \<open>A first token that is no number raises \<^verbatim>\<open>ValueError\<close> for the whole
  series: the row before it gets no value.\<close>

theorem days_not_a_number_raises:
  "compute_days_upon_outcome [''2 years'', ''abc years''] = Inl ValueError"
  by (simp add: compute_days_upon_outcome_def eval_age)

text \<open>
  Claim C5. The table of units is year and years 365, month and months 30, week and
  weeks 7, day and days 1. For a value of two tokens whose first \<^verbatim>\<open>float\<close> reads as
  \<open>m\<close>, the days are \<open>m\<close> times the factor of the unit, and missing when the unit is
  not in the table; when the first token is \<^verbatim>\<open>Unknown\<close> the days are missing. A
  row of a series has the value it has alone. \<^verbatim>\<open>2 years\<close> is 730.0, \<^verbatim>\<open>3 weeks\<close>
  is 21.0, \<^verbatim>\<open>1 day\<close> is 1.0, \<^verbatim>\<open>5 fortnights\<close> and \<^verbatim>\<open>Unknown\<close> are missing.
\<close>

theorem days_magnitude_times_unit:
  "(\<forall>u. map_of period_mapping u =
        map_of [(''year'', 365), (''years'', 365), (''month'', 30), (''months'', 30),
                (''week'', 7), (''weeks'', 7), (''day'', 1), (''days'', 1)] u)
   \<and> (py_split s = [tok, unit] \<and> tok \<noteq> ''Unknown'' \<and> py_float tok = Inr m \<longrightarrow>
        (\<forall>k. map_of period_mapping unit = Some k \<longrightarrow>
               compute_days_upon_outcome [s] = Inr [fmul m (float_of_int k)])
        \<and> (map_of period_mapping unit = None \<longrightarrow> compute_days_upon_outcome [s] = Inr [NaN]))
   \<and> (py_split s = ''Unknown'' # rest \<longrightarrow> compute_days_upon_outcome [s] = Inr [NaN])
   \<and> (\<forall>ys i. compute_days_upon_outcome xs = Inr ys \<and> i < length xs \<longrightarrow>
          compute_days_upon_outcome [xs ! i] = Inr [ys ! i])
   \<and> compute_days_upon_outcome [''2 years'', ''3 weeks'', ''1 day'', ''5 fortnights'', ''Unknown'']
        = Inr [Finite False 730, Finite False 21, Finite False 1, NaN, NaN]"
proof -
  have a: "compute_days_upon_outcome [s] = Inr [fmul m (float_of_int k)]"
    if "py_split s = [tok, unit]" "tok \<noteq> ''Unknown''" "py_float tok = Inr m"
       "map_of period_mapping unit = Some k" for k
    using that by (simp add: compute_days_single)
  have b: "compute_days_upon_outcome [s] = Inr [NaN]"
    if "py_split s = [tok, unit]" "tok \<noteq> ''Unknown''" "py_float tok = Inr m"
       "map_of period_mapping unit = None"
    using that by (simp add: compute_days_single fmul_NaN_right)
  have c: "compute_days_upon_outcome [s] = Inr [NaN]" if "py_split s = ''Unknown'' # rest"
    using that by (simp add: compute_days_single)
  from a b c period_table row_of_series days_examples show ?thesis by blast
qed

theorem days_magnitude_times_unit_witness:
  "py_split ''2 years'' = [''2'', ''years''] \<and> py_float ''2'' = Inr (Finite False 2)
   \<and> map_of period_mapping ''years'' = Some 365
   \<and> compute_days_upon_outcome [''2 years''] = Inr [fmul (Finite False 2) (float_of_int 365)]
   \<and> fmul (Finite False 2) (float_of_int 365) = Finite False 730"
proof -
  have sp: "py_split ''2 years'' = [''2'', ''years'']" by (simp add: eval_age)
  have fl: "py_float ''2'' = Inr (Finite False 2)" by (simp add: eval_age)
  have un: "map_of period_mapping ''years'' = Some 365" by (simp add: period_mapping_def)
  have ne: "''2'' \<noteq> ''Unknown''" by simp
  from days_magnitude_times_unit [of "''2 years''" "''2''" "''years''" "Finite False 2" "[]" "[]"]
    sp fl un ne
  have "compute_days_upon_outcome [''2 years''] = Inr [fmul (Finite False 2) (float_of_int 365)]"
    by blast
  moreover have "fmul (Finite False 2) (float_of_int 365) = Finite False 730"
    by (simp add: eval_age)
  ultimately show ?thesis using sp fl un by simp
qed

text \<open>
  Claim C10. When the value is the one token \<^verbatim>\<open>Unknown\<close>, neither function applied
  to the tokens reads the second token (reading it would raise \<^verbatim>\<open>IndexError\<close>), and
  the days of the row are missing, alone and among other well-formed rows.
\<close>

theorem days_unknown_alone:
  "py_split s = [''Unknown''] \<longrightarrow>
     time_of (py_split s) = Inr None \<and> period_of (py_split s) = Inr None
     \<and> getitem (py_split s) 1 = Inl IndexError
     \<and> compute_days_upon_outcome [s] = Inr [NaN]
     \<and> (\<forall>pre post. list_all well_formed_age (pre @ post) \<longrightarrow>
           (\<exists>ys. compute_days_upon_outcome (pre @ s # post) = Inr ys \<and> ys ! length pre = NaN))"
proof
  assume u: "py_split s = [''Unknown'']"
  have one: "compute_days_upon_outcome [s] = Inr [NaN]"
    using u by (simp add: compute_days_single)
  have wf: "well_formed_age s" using u by (simp add: well_formed_age_def)
  have "\<exists>ys. compute_days_upon_outcome (pre @ s # post) = Inr ys \<and> ys ! length pre = NaN"
    if "list_all well_formed_age (pre @ post)" for pre post
  proof -
    from that wf have "list_all well_formed_age (pre @ s # post)" by simp
    then obtain ys where ys: "compute_days_upon_outcome (pre @ s # post) = Inr ys"
      using returns_iff by blast
    from row_of_series [OF ys, of "length pre"]
    have "compute_days_upon_outcome [s] = Inr [ys ! length pre]" by simp
    with one ys show ?thesis by simp
  qed
  with u one show "time_of (py_split s) = Inr None \<and> period_of (py_split s) = Inr None
     \<and> getitem (py_split s) 1 = Inl IndexError
     \<and> compute_days_upon_outcome [s] = Inr [NaN]
     \<and> (\<forall>pre post. list_all well_formed_age (pre @ post) \<longrightarrow>
           (\<exists>ys. compute_days_upon_outcome (pre @ s # post) = Inr ys \<and> ys ! length pre = NaN))"
    by (simp add: time_of_def period_of_def getitem_def)
qed

theorem days_unknown_alone_witness:
  "py_split ''Unknown'' = [''Unknown'']
   \<and> period_of (py_split ''Unknown'') = Inr None
   \<and> compute_days_upon_outcome [''Unknown''] = Inr [NaN]
   \<and> (\<exists>ys. compute_days_upon_outcome ([''2 years''] @ ''Unknown'' # []) = Inr ys
          \<and> ys ! length [''2 years''] = NaN)"
proof -
  have sp: "py_split ''Unknown'' = [''Unknown'']" by (simp add: eval_age)
  have wf: "list_all well_formed_age ([''2 years''] @ [])"
    by (simp add: well_formed_age_def eval_age)
  from days_unknown_alone [of "''Unknown''"] sp wf show ?thesis by blast
qed

section \<open>The feature deriver and the store\<close>

lemma assign_Inr:
  assumes "assign df target rule source st = (st', Inr u)"
  shows "\<exists>xs logged s. df < length (heap st)
           \<and> map_of (heap st ! df) source = Some (StrS xs)
           \<and> rule xs = (logged, Inr s)
           \<and> st' = st\<lparr>heap := (heap st)[df := AList.update target s (heap st ! df)],
                      log := log st @ logged\<rparr>"
  using assms
  by (auto simp: assign_def get_column_def str_values_def set_column_def
           split: sum.splits option.splits series.splits prod.splits if_splits)

lemma assign_returns:
  assumes "df < length (heap st)" "map_of (heap st ! df) source = Some (StrS xs)"
    "rule xs = (logged, Inr s)"
  shows "assign df target rule source st =
           (st\<lparr>heap := (heap st)[df := AList.update target s (heap st ! df)],
               log := log st @ logged\<rparr>, Inr ())"
  using assms by (simp add: assign_def get_column_def str_values_def set_column_def)




lemma rules_Inr:
  "is_dog_rule xs = (l, Inr s) \<longleftrightarrow> l = fst (check_is_dog xs) \<and> s = BoolS (snd (check_is_dog xs))"
  "has_name_rule xs = (l, Inr s) \<longleftrightarrow> l = [] \<and> s = BoolS (check_has_name xs)"
  "sex_rule xs = (l, Inr s) \<longleftrightarrow> l = [] \<and> s = StrS (get_sex xs)"
  "neutered_rule xs = (l, Inr s) \<longleftrightarrow> l = [] \<and> s = StrS (get_neutered xs)"
  "hair_type_rule xs = (l, Inr s) \<longleftrightarrow> l = [] \<and> s = StrS (get_hair_type xs)"
  "days_rule xs = (l, Inr s) \<longleftrightarrow> l = [] \<and> (\<exists>days. compute_days_upon_outcome xs = Inr days \<and> s = FloatS days)"
  by (auto simp: is_dog_rule_def has_name_rule_def sex_rule_def neutered_rule_def
        hair_type_rule_def days_rule_def split: prod.splits sum.splits)

lemma run_all_Cons_Inr:
  "run_all (c # cs) st = (st', Inr u) \<longleftrightarrow> (\<exists>s1 u1. c st = (s1, Inr u1) \<and> run_all cs s1 = (st', Inr u))"
  by (auto split: prod.splits sum.splits)

lemma add_features_Inr:
  assumes "add_features df st = (st', Inr df')"
  shows "\<exists>a n s b g days. df < length (heap st)
           \<and> map_of (heap st ! df) ''animal_type'' = Some (StrS a)
           \<and> map_of (heap st ! df) ''name'' = Some (StrS n)
           \<and> map_of (heap st ! df) ''sex_upon_outcome'' = Some (StrS s)
           \<and> map_of (heap st ! df) ''breed'' = Some (StrS b)
           \<and> map_of (heap st ! df) ''age_upon_outcome'' = Some (StrS g)
           \<and> compute_days_upon_outcome g = Inr days
           \<and> df' = length (heap st)
           \<and> heap st' = heap st @ [with_features a n s b days (heap st ! df)]
           \<and> log st' = log st @ fst (check_is_dog a)"
proof -
  have lt: "df < length (heap st)"
    using assms by (auto simp: add_features_def df_copy_def split: if_splits)
  define t where "t = heap st ! df"
  define d where "d = length (heap st)"
  define st1 where "st1 = st\<lparr>heap := heap st @ [t]\<rparr>"
  have h1: "heap st1 = heap st @ [t]" "log st1 = log st" by (simp_all add: st1_def)
  from assms lt have df': "df' = d"
    and run: "run_all
                  [assign d ''is_dog'' is_dog_rule ''animal_type'',
                   assign d ''has_name'' has_name_rule ''name'',
                   assign d ''sex'' sex_rule ''sex_upon_outcome'',
                   assign d ''neutered'' neutered_rule ''sex_upon_outcome'',
                   assign d ''hair_type'' hair_type_rule ''breed'',
                   assign d ''days_upon_outcome'' days_rule ''age_upon_outcome''] st1 = (st', Inr ())"
    by (auto simp: add_features_def df_copy_def d_def st1_def t_def split: prod.splits sum.splits)
  from run obtain s2 s3 s4 s5 s6 u2 u3 u4 u5 u6 u7 where
    a1: "assign d ''is_dog'' is_dog_rule ''animal_type'' st1 = (s2, Inr u2)" and
    a2: "assign d ''has_name'' has_name_rule ''name'' s2 = (s3, Inr u3)" and
    a3: "assign d ''sex'' sex_rule ''sex_upon_outcome'' s3 = (s4, Inr u4)" and
    a4: "assign d ''neutered'' neutered_rule ''sex_upon_outcome'' s4 = (s5, Inr u5)" and
    a5: "assign d ''hair_type'' hair_type_rule ''breed'' s5 = (s6, Inr u6)" and
    a6: "assign d ''days_upon_outcome'' days_rule ''age_upon_outcome'' s6 = (st', Inr u7)"
    unfolding run_all_Cons_Inr by auto
  from assign_Inr [OF a1] obtain a where
    c1: "map_of t ''animal_type'' = Some (StrS a)" and
    e2: "heap s2 = heap st @ [AList.update ''is_dog'' (BoolS (snd (check_is_dog a))) t]"
        "log s2 = log st @ fst (check_is_dog a)"
    by (auto simp: h1 d_def rules_Inr)
  define t2 where "t2 = AList.update ''is_dog'' (BoolS (snd (check_is_dog a))) t"
  from assign_Inr [OF a2] obtain n where
    c2: "map_of t ''name'' = Some (StrS n)" and
    e3: "heap s3 = heap st @ [AList.update ''has_name'' (BoolS (check_has_name n)) t2]"
        "log s3 = log s2"
    by (auto simp: e2 d_def rules_Inr t2_def update_conv')
  define t3 where "t3 = AList.update ''has_name'' (BoolS (check_has_name n)) t2"
  from assign_Inr [OF a3] obtain s where
    c3: "map_of t ''sex_upon_outcome'' = Some (StrS s)" and
    e4: "heap s4 = heap st @ [AList.update ''sex'' (StrS (get_sex s)) t3]"
        "log s4 = log s3"
    by (auto simp: e3 d_def rules_Inr t2_def t3_def update_conv')
  define t4 where "t4 = AList.update ''sex'' (StrS (get_sex s)) t3"
  from assign_Inr [OF a4] c3 have
    e5: "heap s5 = heap st @ [AList.update ''neutered'' (StrS (get_neutered s)) t4]"
        "log s5 = log s4"
    by (auto simp: e4 d_def rules_Inr t2_def t3_def t4_def update_conv')
  define t5 where "t5 = AList.update ''neutered'' (StrS (get_neutered s)) t4"
  from assign_Inr [OF a5] obtain b where
    c5: "map_of t ''breed'' = Some (StrS b)" and
    e6: "heap s6 = heap st @ [AList.update ''hair_type'' (StrS (get_hair_type b)) t5]"
        "log s6 = log s5"
    by (auto simp: e5 d_def rules_Inr t2_def t3_def t4_def t5_def update_conv')
  define t6 where "t6 = AList.update ''hair_type'' (StrS (get_hair_type b)) t5"
  from assign_Inr [OF a6] obtain g days where
    c6: "map_of t ''age_upon_outcome'' = Some (StrS g)" "compute_days_upon_outcome g = Inr days" and
    e7: "heap st' = heap st @ [AList.update ''days_upon_outcome'' (FloatS days) t6]"
        "log st' = log s6"
    by (auto simp: e6 d_def rules_Inr t2_def t3_def t4_def t5_def t6_def update_conv')
  have "heap st' = heap st @ [with_features a n s b days t]"
    by (simp add: e7 with_features_def t6_def t5_def t4_def t3_def t2_def)
  moreover have "log st' = log st @ fst (check_is_dog a)"
    by (simp add: e7 e6 e5 e4 e3 e2)
  ultimately show ?thesis
    using lt c1 c2 c3 c5 c6 df' unfolding t_def [symmetric] d_def [symmetric] by blast
qed

lemma assign_fresh:
  assumes "map_of t source = Some (StrS xs)" "rule xs = (logged, Inr s)"
  shows "assign (length hs) target rule source \<lparr>heap = hs @ [t], log = l\<rparr> =
           (\<lparr>heap = hs @ [AList.update target s t], log = l @ logged\<rparr>, Inr ())"
  using assms by (simp add: assign_def get_column_def str_values_def set_column_def)

lemma add_features_returns:
  assumes "df < length (heap st)"
    and "map_of (heap st ! df) ''animal_type'' = Some (StrS a)"
    and "map_of (heap st ! df) ''name'' = Some (StrS n)"
    and "map_of (heap st ! df) ''sex_upon_outcome'' = Some (StrS s)"
    and "map_of (heap st ! df) ''breed'' = Some (StrS b)"
    and "map_of (heap st ! df) ''age_upon_outcome'' = Some (StrS g)"
    and "compute_days_upon_outcome g = Inr days"
  shows "add_features df st =
           (st\<lparr>heap := heap st @ [with_features a n s b days (heap st ! df)],
               log := log st @ fst (check_is_dog a)\<rparr>, Inr (length (heap st)))"
proof -
  obtain hs l where st: "st = \<lparr>heap = hs, log = l\<rparr>" by (cases st) simp
  define t where "t = hs ! df"
  define t1 where "t1 = AList.update ''is_dog'' (BoolS (snd (check_is_dog a))) t"
  define t2 where "t2 = AList.update ''has_name'' (BoolS (check_has_name n)) t1"
  define t3 where "t3 = AList.update ''sex'' (StrS (get_sex s)) t2"
  define t4 where "t4 = AList.update ''neutered'' (StrS (get_neutered s)) t3"
  define t5 where "t5 = AList.update ''hair_type'' (StrS (get_hair_type b)) t4"
  define t6 where "t6 = AList.update ''days_upon_outcome'' (FloatS days) t5"
  define l1 where "l1 = l @ fst (check_is_dog a)"
  have c: "map_of t ''animal_type'' = Some (StrS a)" "map_of t ''name'' = Some (StrS n)"
    "map_of t ''sex_upon_outcome'' = Some (StrS s)" "map_of t ''breed'' = Some (StrS b)"
    "map_of t ''age_upon_outcome'' = Some (StrS g)"
    using assms(2-6) by (simp_all add: st t_def)
  have r1: "is_dog_rule a = (fst (check_is_dog a), Inr (BoolS (snd (check_is_dog a))))"
    by (simp add: is_dog_rule_def case_prod_beta)
  have r6: "days_rule g = ([], Inr (FloatS days))"
    by (simp add: days_rule_def assms(7))
  have a1: "assign (length hs) ''is_dog'' is_dog_rule ''animal_type'' \<lparr>heap = hs @ [t], log = l\<rparr>
              = (\<lparr>heap = hs @ [t1], log = l1\<rparr>, Inr ())"
    unfolding t1_def l1_def
    by (rule assign_fresh [where rule = is_dog_rule and xs = a, OF c(1) r1])
  have a2: "assign (length hs) ''has_name'' has_name_rule ''name'' \<lparr>heap = hs @ [t1], log = l1\<rparr>
              = (\<lparr>heap = hs @ [t2], log = l1 @ []\<rparr>, Inr ())"
    unfolding t2_def
    by (rule assign_fresh [where rule = has_name_rule and xs = n])
      (simp_all add: t1_def update_conv' c has_name_rule_def)
  have a3: "assign (length hs) ''sex'' sex_rule ''sex_upon_outcome'' \<lparr>heap = hs @ [t2], log = l1\<rparr>
              = (\<lparr>heap = hs @ [t3], log = l1 @ []\<rparr>, Inr ())"
    unfolding t3_def
    by (rule assign_fresh [where rule = sex_rule and xs = s])
      (simp_all add: t1_def t2_def update_conv' c sex_rule_def)
  have a4: "assign (length hs) ''neutered'' neutered_rule ''sex_upon_outcome'' \<lparr>heap = hs @ [t3], log = l1\<rparr>
              = (\<lparr>heap = hs @ [t4], log = l1 @ []\<rparr>, Inr ())"
    unfolding t4_def
    by (rule assign_fresh [where rule = neutered_rule and xs = s])
      (simp_all add: t1_def t2_def t3_def update_conv' c neutered_rule_def)
  have a5: "assign (length hs) ''hair_type'' hair_type_rule ''breed'' \<lparr>heap = hs @ [t4], log = l1\<rparr>
              = (\<lparr>heap = hs @ [t5], log = l1 @ []\<rparr>, Inr ())"
    unfolding t5_def
    by (rule assign_fresh [where rule = hair_type_rule and xs = b])
      (simp_all add: t1_def t2_def t3_def t4_def update_conv' c hair_type_rule_def)
  have a6: "assign (length hs) ''days_upon_outcome'' days_rule ''age_upon_outcome''
              \<lparr>heap = hs @ [t5], log = l1\<rparr>
              = (\<lparr>heap = hs @ [t6], log = l1 @ []\<rparr>, Inr ())"
    unfolding t6_def
    by (rule assign_fresh [where rule = days_rule and xs = g])
      (simp_all add: t1_def t2_def t3_def t4_def t5_def update_conv' c r6)
  have run: "run_all
                  [assign (length hs) ''is_dog'' is_dog_rule ''animal_type'',
                   assign (length hs) ''has_name'' has_name_rule ''name'',
                   assign (length hs) ''sex'' sex_rule ''sex_upon_outcome'',
                   assign (length hs) ''neutered'' neutered_rule ''sex_upon_outcome'',
                   assign (length hs) ''hair_type'' hair_type_rule ''breed'',
                   assign (length hs) ''days_upon_outcome'' days_rule ''age_upon_outcome'']
                  \<lparr>heap = hs @ [t], log = l\<rparr>
              = (\<lparr>heap = hs @ [t6], log = l1\<rparr>, Inr ())"
    using a1 a2 a3 a4 a5 a6 by simp
  have w: "t6 = with_features a n s b days t"
    by (simp add: with_features_def t6_def t5_def t4_def t3_def t2_def t1_def)
  from assms(1) have lt: "df < length hs" by (simp add: st)
  show ?thesis
    unfolding add_features_def df_copy_def
    using lt run by (simp add: st t_def [symmetric] w l1_def)
qed

subsection \<open>The columns of the new table\<close>

lemma with_features_other:
  "c \<notin> set derived_columns \<Longrightarrow> map_of (with_features a n s b days t) c = map_of t c"
  by (simp add: with_features_def derived_columns_def update_conv')

lemma with_features_derived:
  "map_of (with_features a n s b days t) ''is_dog'' = Some (BoolS (snd (check_is_dog a)))"
  "map_of (with_features a n s b days t) ''has_name'' = Some (BoolS (check_has_name n))"
  "map_of (with_features a n s b days t) ''sex'' = Some (StrS (get_sex s))"
  "map_of (with_features a n s b days t) ''neutered'' = Some (StrS (get_neutered s))"
  "map_of (with_features a n s b days t) ''hair_type'' = Some (StrS (get_hair_type b))"
  "map_of (with_features a n s b days t) ''days_upon_outcome'' = Some (FloatS days)"
  by (simp_all add: with_features_def update_conv')

lemma with_features_fix:
  assumes "map_of w ''is_dog'' = Some (BoolS (snd (check_is_dog a)))"
    and "map_of w ''has_name'' = Some (BoolS (check_has_name n))"
    and "map_of w ''sex'' = Some (StrS (get_sex s))"
    and "map_of w ''neutered'' = Some (StrS (get_neutered s))"
    and "map_of w ''hair_type'' = Some (StrS (get_hair_type b))"
    and "map_of w ''days_upon_outcome'' = Some (FloatS days)"
  shows "with_features a n s b days w = w"
  by (simp add: with_features_def update_triv assms)




lemma set_update_subset: "set (AList.update k v al) \<subseteq> insert (k, v) (set al)"
  by (induction al) auto

lemma with_features_rows:
  assumes "\<forall>(c, x)\<in>set t. series_len x = m"
    and "length a = m" "length n = m" "length s = m" "length b = m" "length days = m"
  shows "\<forall>(c, x)\<in>set (with_features a n s b days t). series_len x = m"
proof -
  have len: "length (snd (check_is_dog a)) = m" "length (check_has_name n) = m"
    "length (get_sex s) = m" "length (get_neutered s) = m" "length (get_hair_type b) = m"
    using assms(2-5)
    by (simp_all add: check_is_dog_def Let_def str_lower_def check_has_name_def get_sex_rows
        get_neutered_rows get_hair_type_rows)
  have step: "\<forall>(c, x)\<in>set (AList.update k v al). series_len x = m"
    if "\<forall>(c, x)\<in>set al. series_len x = m" "series_len v = m" for k v al
    using that set_update_subset [of k v al] by auto
  show ?thesis
    unfolding with_features_def
    by (intro step) (simp_all add: assms(1,6) len)
qed

subsection \<open>The input table and the returned table\<close>

lemma example_days:
  "compute_days_upon_outcome [''2 years'', ''3 weeks''] = Inr [Finite False 730, Finite False 21]"
  by (rule compute_days_rowwise [THEN iffD2]) (simp add: days_rows)

lemma example_returns:
  "add_features 0 \<lparr>heap = [example_table], log = []\<rparr> =
     (\<lparr>heap = [example_table,
               with_features [''Dog'', ''Cat''] [''Rex'', ''Unknown'']
                 [''Neutered Male'', ''Spayed Female''] [''Beagle Mix'', ''Domestic Shorthair Mix'']
                 [Finite False 730, Finite False 21] example_table],
        log = []\<rparr>, Inr 1)"
proof -
  have "fst (check_is_dog [''Dog'', ''Cat'']) = []" by code_simp
  with add_features_returns [of 0 "\<lparr>heap = [example_table], log = []\<rparr>"
      "[''Dog'', ''Cat'']" "[''Rex'', ''Unknown'']" "[''Neutered Male'', ''Spayed Female'']"
      "[''Beagle Mix'', ''Domestic Shorthair Mix'']" "[''2 years'', ''3 weeks'']"
      "[Finite False 730, Finite False 21]"]
  show ?thesis by (simp add: example_table_def example_days)
qed






subsection \<open>Rows, and deriving twice\<close>

text \<open>
  Claim C8. When the deriver returns: if every column of the input has \<open>m\<close> rows, every
  column of the result has \<open>m\<close> rows; the original columns that bear no derived name are
  the same series, rows in the same order; each derived column is the rule applied to its
  source column, which works row by row; and the deriver returns on its own result too,
  with a table equal to that result, so with the same values in the six derived columns.
\<close>

theorem add_features_rows_and_twice:
  assumes "add_features df st = (st1, Inr df1)"
  shows "(\<forall>m. (\<forall>(c, x)\<in>set (heap st ! df). series_len x = m) \<longrightarrow>
               (\<forall>(c, x)\<in>set (heap st1 ! df1). series_len x = m))
     \<and> (\<forall>c. c \<notin> set derived_columns \<longrightarrow>
           map_of (heap st1 ! df1) c = map_of (heap st ! df) c)
     \<and> (\<exists>a n s b g days.
           map_of (heap st ! df) ''animal_type'' = Some (StrS a)
           \<and> map_of (heap st ! df) ''name'' = Some (StrS n)
           \<and> map_of (heap st ! df) ''sex_upon_outcome'' = Some (StrS s)
           \<and> map_of (heap st ! df) ''breed'' = Some (StrS b)
           \<and> map_of (heap st ! df) ''age_upon_outcome'' = Some (StrS g)
           \<and> compute_days_upon_outcome g = Inr days
           \<and> map_of (heap st1 ! df1) ''is_dog'' = Some (BoolS (map (\<lambda>x. py_lower x = ''dog'') a))
           \<and> map_of (heap st1 ! df1) ''has_name''
               = Some (BoolS (map (\<lambda>x. py_lower x \<noteq> ''unknown'') n))
           \<and> map_of (heap st1 ! df1) ''sex'' = Some (StrS (get_sex s))
           \<and> map_of (heap st1 ! df1) ''neutered'' = Some (StrS (get_neutered s))
           \<and> map_of (heap st1 ! df1) ''hair_type'' = Some (StrS (get_hair_type b))
           \<and> map_of (heap st1 ! df1) ''days_upon_outcome'' = Some (FloatS days))
     \<and> (\<exists>st2 df2. add_features df1 st1 = (st2, Inr df2)
           \<and> heap st2 ! df2 = heap st1 ! df1 \<and> heap st2 ! df1 = heap st1 ! df1)"
proof -
  from add_features_Inr [OF assms] obtain a n s b g days where
    lt: "df < length (heap st)" and
    c: "map_of (heap st ! df) ''animal_type'' = Some (StrS a)"
       "map_of (heap st ! df) ''name'' = Some (StrS n)"
       "map_of (heap st ! df) ''sex_upon_outcome'' = Some (StrS s)"
       "map_of (heap st ! df) ''breed'' = Some (StrS b)"
       "map_of (heap st ! df) ''age_upon_outcome'' = Some (StrS g)" and
    days: "compute_days_upon_outcome g = Inr days" and
    d: "df1 = length (heap st)" and
    h: "heap st1 = heap st @ [with_features a n s b days (heap st ! df)]"
    by blast
  define t where "t = heap st ! df"
  define w where "w = with_features a n s b days t"
  have w1: "heap st1 ! df1 = w" by (simp add: h d w_def t_def)
  have ct: "map_of t ''animal_type'' = Some (StrS a)" "map_of t ''name'' = Some (StrS n)"
    "map_of t ''sex_upon_outcome'' = Some (StrS s)" "map_of t ''breed'' = Some (StrS b)"
    "map_of t ''age_upon_outcome'' = Some (StrS g)"
    using c by (simp_all add: t_def)
  have rows: "\<forall>(c, x)\<in>set w. series_len x = m" if r: "\<forall>(c, x)\<in>set t. series_len x = m" for m
  proof -
    have len: "length xs = m" if "map_of t k = Some (StrS xs)" for k xs
      using map_of_SomeD [OF that] r by fastforce
    have "length days = length g" using days by (rule length_of_series)
    then have "length days = m" using len [OF ct(5)] by simp
    with r len [OF ct(1)] len [OF ct(2)] len [OF ct(3)] len [OF ct(4)]
    show ?thesis unfolding w_def by (intro with_features_rows) simp_all
  qed
  have other: "map_of w k = map_of t k" if "k \<notin> set derived_columns" for k
    using that by (simp add: w_def with_features_other)
  have der: "map_of w ''is_dog'' = Some (BoolS (snd (check_is_dog a)))"
    "map_of w ''has_name'' = Some (BoolS (check_has_name n))"
    "map_of w ''sex'' = Some (StrS (get_sex s))"
    "map_of w ''neutered'' = Some (StrS (get_neutered s))"
    "map_of w ''hair_type'' = Some (StrS (get_hair_type b))"
    "map_of w ''days_upon_outcome'' = Some (FloatS days)"
    by (simp_all add: w_def with_features_derived)
  have rules: "snd (check_is_dog a) = map (\<lambda>x. py_lower x = ''dog'') a"
    "check_has_name n = map (\<lambda>x. py_lower x \<noteq> ''unknown'') n"
    by (simp_all add: check_is_dog_def Let_def str_lower_def check_has_name_def)
  have src: "map_of w ''animal_type'' = Some (StrS a)" "map_of w ''name'' = Some (StrS n)"
    "map_of w ''sex_upon_outcome'' = Some (StrS s)" "map_of w ''breed'' = Some (StrS b)"
    "map_of w ''age_upon_outcome'' = Some (StrS g)"
    using ct by (simp_all add: other derived_columns_def)
  have lt1: "df1 < length (heap st1)" by (simp add: h d)
  have again: "add_features df1 st1 =
      (st1\<lparr>heap := heap st1 @ [with_features a n s b days w],
           log := log st1 @ fst (check_is_dog a)\<rparr>, Inr (length (heap st1)))"
    using add_features_returns [OF lt1, of a n s b g days] src days by (simp add: w1)
  have same: "with_features a n s b days w = w"
    by (rule with_features_fix) (rule der)+
  have twice: "\<exists>st2 df2. add_features df1 st1 = (st2, Inr df2)
           \<and> heap st2 ! df2 = heap st1 ! df1 \<and> heap st2 ! df1 = heap st1 ! df1"
    unfolding again using lt1 by (simp add: same w1 nth_append)
  show ?thesis
    unfolding w1 t_def [symmetric]
    using rows other ct days der twice by (auto simp: rules w1)
qed

theorem add_features_rows_and_twice_witness:
  "snd (add_features 0 \<lparr>heap = [example_table], log = []\<rparr>) = Inr 1
   \<and> (\<exists>st2 df2. add_features 1 (fst (add_features 0 \<lparr>heap = [example_table], log = []\<rparr>))
                   = (st2, Inr df2)
         \<and> heap st2 ! df2 = heap (fst (add_features 0 \<lparr>heap = [example_table], log = []\<rparr>)) ! 1)"
proof -
  define s0 where "s0 = \<lparr>heap = [example_table], log = []\<rparr>"
  obtain s1 where e: "add_features 0 s0 = (s1, Inr 1)"
    unfolding s0_def using example_returns by blast
  from add_features_rows_and_twice [OF e]
  have "\<exists>st2 df2. add_features 1 s1 = (st2, Inr df2) \<and> heap st2 ! df2 = heap s1 ! 1"
    by blast
  with e show ?thesis unfolding s0_def [symmetric] by simp
qed

end
